theory Spec2Isabelle
  imports Main "HOL-Library.Sublist"
begin

section \<open>JavaScript values used by the test utilities\<close>

text \<open>
  Strings are lists of 8-bit code units (the Latin-1 range of JavaScript's UTF-16 code
  units). Exceptions are values of \<open>error\<close>; a function that may throw returns
  \<open>error + 'a\<close> with \<open>Inl\<close> for the exception.
\<close>

datatype error =
    AssertionError string string
  | Thrown string
  | TypeError string
  | SyntaxError string
  | ENOENT string
  | EISDIR string
  | ENOTDIR string
  | Error string

text \<open>Truthiness of an environment variable: \<open>undefined\<close> and the empty string are falsy.\<close>

definition truthy :: "string option \<Rightarrow> bool" where
  "truthy v = (case v of None \<Rightarrow> False | Some s \<Rightarrow> s \<noteq> [])"

text \<open>\<open>String.prototype.indexOf\<close>: the first index where the needle occurs, or \<open>-1\<close>.\<close>

fun indexOf_from :: "nat \<Rightarrow> string \<Rightarrow> string \<Rightarrow> int" where
  "indexOf_from i [] e = (if e = [] then int i else - 1)"
| "indexOf_from i (c # cs) e = (if prefix e (c # cs) then int i else indexOf_from (Suc i) cs e)"

definition indexOf :: "string \<Rightarrow> string \<Rightarrow> int" where
  "indexOf a e = indexOf_from 0 a e"

text \<open>\<open>String.prototype.includes\<close>, which the test framework's \<open>toMatch\<close> uses for a
  string argument.\<close>

definition str_includes :: "string \<Rightarrow> string \<Rightarrow> bool" where
  "str_includes a e = (indexOf a e \<noteq> - 1)"

section \<open>Regular expressions of the source, as matchers\<close>

text \<open>
  The character classes \<open>\d\<close>, \<open>\s\<close> and \<open>\w\<close> of a regular expression without the
  unicode flag, on 8-bit code units.
\<close>

definition is_digit :: "char \<Rightarrow> bool" where
  "is_digit c = (c \<in> set ''0123456789'')"

definition is_space :: "char \<Rightarrow> bool" where
  "is_space c = (c \<in> set [CHR 0x09, CHR 0x0A, CHR 0x0B, CHR 0x0C, CHR 0x0D, CHR 0x20, CHR 0xA0])"

definition is_word :: "char \<Rightarrow> bool" where
  "is_word c = (c \<in> set ''abcdefghijklmnopqrstuvwxyzABCDEFGHIJKLMNOPQRSTUVWXYZ0123456789_'')"

fun strip_prefix :: "string \<Rightarrow> string \<Rightarrow> string option" where
  "strip_prefix [] s = Some s"
| "strip_prefix (p # ps) [] = None"
| "strip_prefix (p # ps) (c # cs) = (if p = c then strip_prefix ps cs else None)"

text \<open>
  \<open>/rgb\((\d+),\s*(\d+),\s*(\d+)\)/\<close> tried at the start of \<open>s\<close>; the result is the
  three captured groups. The greedy quantifiers never have to give characters back: what
  follows \<open>\d+\<close> is not a digit, and what follows \<open>\s*\<close> is not white space.
\<close>

definition match_rgb_at :: "string \<Rightarrow> (string \<times> string \<times> string) option" where
  "match_rgb_at s =
     (case strip_prefix ''rgb('' s of None \<Rightarrow> None | Some s1 \<Rightarrow>
      let rs = takeWhile is_digit s1; s2 = dropWhile is_digit s1 in
      if rs = [] then None else
      (case strip_prefix '','' s2 of None \<Rightarrow> None | Some s3 \<Rightarrow>
       let s4 = dropWhile is_space s3;
           gs = takeWhile is_digit s4; s5 = dropWhile is_digit s4 in
       if gs = [] then None else
       (case strip_prefix '','' s5 of None \<Rightarrow> None | Some s6 \<Rightarrow>
        let s7 = dropWhile is_space s6;
            bs = takeWhile is_digit s7; s8 = dropWhile is_digit s7 in
        if bs = [] then None else
        (case strip_prefix '')'' s8 of None \<Rightarrow> None | Some s9 \<Rightarrow> Some (rs, gs, bs)))))"

text \<open>\<open>rgb.match(...)\<close>: the leftmost position where the expression matches.\<close>

fun search_rgb :: "string \<Rightarrow> (string \<times> string \<times> string) option" where
  "search_rgb [] = match_rgb_at []"
| "search_rgb (c # cs) =
     (case match_rgb_at (c # cs) of Some m \<Rightarrow> Some m | None \<Rightarrow> search_rgb cs)"

text \<open>
  The form the specification calls \<open>rgb(R, G, B)\<close>, stated without the matcher: somewhere
  in the string stand \<open>rgb(\<close>, a decimal numeral, a comma, optional white space, a decimal
  numeral, a comma, optional white space, a decimal numeral and \<open>)\<close>.
\<close>

definition rgb_form_at :: "string \<Rightarrow> bool" where
  "rgb_form_at s = (\<exists>rs w1 gs w2 bs post.
     s = ''rgb('' @ rs @ '','' @ w1 @ gs @ '','' @ w2 @ bs @ '')'' @ post \<and>
     rs \<noteq> [] \<and> gs \<noteq> [] \<and> bs \<noteq> [] \<and>
     list_all is_digit rs \<and> list_all is_digit gs \<and> list_all is_digit bs \<and>
     list_all is_space w1 \<and> list_all is_space w2)"

definition rgb_form :: "string \<Rightarrow> bool" where
  "rgb_form s = (\<exists>pre suf. s = pre @ suf \<and> rgb_form_at suf)"

text \<open>
  The literal form of the specification's sentence, read as a form of the whole string:
  \<open>rgb(\<close>, a decimal numeral, a comma and a space, a decimal numeral, a comma and a
  space, a decimal numeral and \<open>)\<close>, with nothing before or after.
\<close>

definition literal_rgb :: "string \<Rightarrow> bool" where
  "literal_rgb s = (\<exists>rs gs bs.
     s = ''rgb('' @ rs @ '', '' @ gs @ '', '' @ bs @ '')'' \<and>
     rs \<noteq> [] \<and> gs \<noteq> [] \<and> bs \<noteq> [] \<and>
     list_all is_digit rs \<and> list_all is_digit gs \<and> list_all is_digit bs)"

text \<open>\<open>/playground\/([\w-]+)\//\<close> at the start of \<open>s\<close>, and its leftmost match.\<close>

definition is_name_char :: "char \<Rightarrow> bool" where
  "is_name_char c = (is_word c \<or> c = CHR ''-'')"

definition match_playground_at :: "string \<Rightarrow> string option" where
  "match_playground_at s =
     (case strip_prefix ''playground/'' s of None \<Rightarrow> None | Some s1 \<Rightarrow>
      let name = takeWhile is_name_char s1; s2 = dropWhile is_name_char s1 in
      if name = [] then None else
      (case strip_prefix ''/'' s2 of None \<Rightarrow> None | Some s3 \<Rightarrow> Some name))"

fun search_playground :: "string \<Rightarrow> string option" where
  "search_playground [] = match_playground_at []"
| "search_playground (c # cs) =
     (case match_playground_at (c # cs) of Some m \<Rightarrow> Some m | None \<Rightarrow> search_playground cs)"

section \<open>The port table\<close>

definition ports :: "(string \<times> nat) list" where
  "ports =
    [(''cli'', 9510),
     (''cli-module'', 9511),
     (''legacy/ssr'', 9520),
     (''lib'', 9521),
     (''optimize-missing-deps'', 9522),
     (''ssr-deps'', 9600),
     (''ssr-html'', 9601),
     (''ssr-pug'', 9602),
     (''ssr-react'', 9603),
     (''ssr-vue'', 9604),
     (''ssr-webworker'', 9605),
     (''css/postcss-caching'', 5005),
     (''css/postcss-plugins-different-dir'', 5006)]"

section \<open>The process environment\<close>

text \<open>
  \<open>VITE_TEST_BUILD\<close> and \<open>CI\<close> are the two environment variables the utilities read;
  \<open>testPath\<close> is \<open>expect.getState().testPath\<close>, \<open>dirname\<close> is \<open>__dirname\<close>. Node's
  \<open>path.resolve\<close> and \<open>path.join\<close> depend on the platform and are taken as given, and
  so is the engine's \<open>RegExp\<close> constructor on patterns that use pattern syntax
  (\<open>regexp_engine\<close>: a syntax error, or the compiled expression, given by the strings
  in which it finds a match).
\<close>

record env =
  VITE_TEST_BUILD :: "string option"
  CI :: "string option"
  testPath :: string
  dirname :: string
  path_resolve :: "string list \<Rightarrow> string"
  path_join :: "string list \<Rightarrow> string"
  regexp_engine :: "string \<Rightarrow> error + (string \<Rightarrow> bool)"

definition isBuild :: "env \<Rightarrow> bool" where
  "isBuild e = truthy (VITE_TEST_BUILD e)"

definition isServe :: "env \<Rightarrow> bool" where
  "isServe e = (\<not> isBuild e)"

section \<open>untilUpdated\<close>

text \<open>
  The getter is given by the outcome of each of its invocations, numbered from 0: it
  throws (\<open>Inl\<close>) or returns a string, \<open>None\<close> standing for \<open>null\<close> or \<open>undefined\<close>.
  The log records what \<open>untilUpdated\<close> did: how often it invoked the getter, the
  \<open>timeout(n)\<close> calls it awaited, and the \<open>expect(actual).toMatch(expected)\<close> calls.
\<close>

type_synonym getter = "nat \<Rightarrow> error + string option"

record poll_log =
  polls :: nat
  sleeps :: "nat list"
  asserts :: "(string \<times> string) list"

definition no_log :: poll_log where
  "no_log = \<lparr>polls = 0, sleeps = [], asserts = []\<rparr>"

text \<open>\<open>expect(actual).toMatch(expected)\<close> for a string \<open>expected\<close>: passes when \<open>actual\<close>
  includes it, throws an assertion error otherwise.\<close>

definition toMatch :: "string \<Rightarrow> string \<Rightarrow> error option" where
  "toMatch actual expected =
     (if str_includes actual expected then None else Some (AssertionError actual expected))"

definition maxTries :: "env \<Rightarrow> nat" where
  "maxTries e = (if truthy (CI e) then 100 else 50)"

definition nullish_or_empty :: "string option \<Rightarrow> string" where
  "nullish_or_empty v = (case v of None \<Rightarrow> [] | Some a \<Rightarrow> a)"

text \<open>The \<open>for\<close> loop of \<open>untilUpdated\<close>, entered with the current value of \<open>tries\<close>.\<close>

function untilUpdated_loop ::
  "getter \<Rightarrow> string \<Rightarrow> nat \<Rightarrow> nat \<Rightarrow> poll_log \<Rightarrow> error option \<times> poll_log" where
  "untilUpdated_loop poll expected mx tries lg =
     (if tries < mx then
        (case poll (polls lg) of
           Inl e \<Rightarrow> (Some e, lg\<lparr>polls := Suc (polls lg)\<rparr>)
         | Inr v \<Rightarrow>
             (let actual = nullish_or_empty v;
                  lg1 = lg\<lparr>polls := Suc (polls lg)\<rparr>
              in if indexOf actual expected > - 1 \<or> tries = mx - 1
                 then (toMatch actual expected,
                       lg1\<lparr>asserts := asserts lg1 @ [(actual, expected)]\<rparr>)
                 else untilUpdated_loop poll expected mx (Suc tries)
                        (lg1\<lparr>sleeps := sleeps lg1 @ [50]\<rparr>)))
      else (None, lg))"
  by pat_completeness auto
termination
  by (relation "measure (\<lambda>(poll, expected, mx, tries, lg). mx - tries)") auto

declare untilUpdated_loop.simps [simp del]

text \<open>What an invocation of the getter returned, after \<open>?? ''\<close>.\<close>

definition returned :: "error + string option \<Rightarrow> string" where
  "returned r = (case r of Inl e \<Rightarrow> [] | Inr v \<Rightarrow> nullish_or_empty v)"

definition untilUpdated :: "env \<Rightarrow> getter \<Rightarrow> string \<Rightarrow> bool \<Rightarrow> error option \<times> poll_log" where
  "untilUpdated e poll expected runInBuild =
     (if isBuild e \<and> \<not> runInBuild then (None, no_log)
      else untilUpdated_loop poll expected (maxTries e) 0 no_log)"

section \<open>Paths and the test directory\<close>

definition slash :: "string \<Rightarrow> string" where
  "slash p = map (\<lambda>c. if c = CHR 0x5C then CHR ''/'' else c) p"

text \<open>
  \<open>testDir\<close>: when the test path has no \<open>playground/<name>/\<close> part, \<open>testName\<close> is
  \<open>undefined\<close> and \<open>path.resolve\<close> throws a type error for its third argument.
\<close>

definition testDir :: "env \<Rightarrow> error + string" where
  "testDir e =
     (case search_playground (slash (testPath e)) of
        None \<Rightarrow> Inl (TypeError ''paths[2]'')
      | Some testName \<Rightarrow> Inr (path_resolve e [dirname e, ''../playground-temp'', testName]))"

section \<open>Colours\<close>

text \<open>
  The table of the package \<open>css-color-names\<close> is not part of the sources; it is a
  parameter: the object's entries (name, hex) in the order \<open>Object.keys\<close> lists them.
\<close>

type_synonym color_table = "(string \<times> string) list"

definition object_keys :: "color_table \<Rightarrow> string list" where
  "object_keys colors = map fst colors"

definition object_get :: "color_table \<Rightarrow> string \<Rightarrow> string" where
  "object_get colors k = (case map_of colors k of Some v \<Rightarrow> v | None \<Rightarrow> ''undefined'')"

definition hexToNameMap :: "color_table \<Rightarrow> (string \<rightharpoonup> string)" where
  "hexToNameMap colors =
     fold (\<lambda>color m. m(object_get colors color \<mapsto> color)) (object_keys colors) Map.empty"

definition hex_digit :: "nat \<Rightarrow> char" where
  "hex_digit d = ''0123456789abcdef'' ! d"

text \<open>\<open>c.toString(16)\<close> for a non-negative integer \<open>c\<close>.\<close>

function toString16 :: "nat \<Rightarrow> string" where
  "toString16 n = (if n < 16 then [hex_digit n] else toString16 (n div 16) @ [hex_digit (n mod 16)])"
  by pat_completeness auto
termination
  by (relation "measure (\<lambda>n. n)") auto

declare toString16.simps [simp del]

definition componentToHex :: "nat \<Rightarrow> string" where
  "componentToHex c = (let hex = toString16 c in if length hex = 1 then CHR ''0'' # hex else hex)"

text \<open>
  \<open>parseInt(ds, 10)\<close> on a string of decimal digits. The value is an unbounded natural
  number; JavaScript's number agrees with it below \<open>2^53\<close>, which covers every colour
  component a browser computes.
\<close>

definition digit_value :: "char \<Rightarrow> nat" where
  "digit_value c = of_char c - 48"

definition parseInt10 :: "string \<Rightarrow> nat" where
  "parseInt10 ds = foldl (\<lambda>acc c. 10 * acc + digit_value c) 0 ds"

definition rgbToHex :: "string \<Rightarrow> string" where
  "rgbToHex rgb =
     (case search_rgb rgb of
        Some (rs, gs, bs) \<Rightarrow>
          ''#'' @ componentToHex (parseInt10 rs) @ componentToHex (parseInt10 gs)
               @ componentToHex (parseInt10 bs)
      | None \<Rightarrow> ''#000000'')"

text \<open>
  The page: \<open>page.$(selector)\<close> gives an element handle or \<open>null\<close>, and
  \<open>computed_color\<close> is \<open>getComputedStyle(el).color\<close> of a handle. Calling \<open>evaluate\<close>
  on \<open>null\<close> throws a type error.
\<close>

datatype 'h element_ref = Selector string | Handle 'h

record 'h page =
  query :: "string \<Rightarrow> 'h option"
  computed_color :: "'h \<Rightarrow> string"

definition toEl :: "'h page \<Rightarrow> 'h element_ref \<Rightarrow> 'h option" where
  "toEl pg el = (case el of Selector s \<Rightarrow> query pg s | Handle h \<Rightarrow> Some h)"

definition getColor :: "color_table \<Rightarrow> 'h page \<Rightarrow> 'h element_ref \<Rightarrow> error + string" where
  "getColor colors pg el =
     (case toEl pg el of
        None \<Rightarrow> Inl (TypeError ''evaluate'')
      | Some h \<Rightarrow>
          (let rgb = computed_color pg h
           in Inr (case hexToNameMap colors (rgbToHex rgb) of Some name \<Rightarrow> name | None \<Rightarrow> rgb)))"

section \<open>Files\<close>

text \<open>
  The file system maps a path to a file with its contents or to a directory with the
  names \<open>readdirSync\<close> lists for it. The state also records every call made.
\<close>

datatype node = File string | Dir "string list"

datatype fs_op = ReadFile string | WriteFile string string | ReadDir string

record fs_state =
  nodes :: "string \<rightharpoonup> node"
  ops :: "fs_op list"

definition readFileSync :: "fs_state \<Rightarrow> string \<Rightarrow> (error + string) \<times> fs_state" where
  "readFileSync st p =
     ((case nodes st p of
         None \<Rightarrow> Inl (ENOENT p)
       | Some (Dir names) \<Rightarrow> Inl (EISDIR p)
       | Some (File content) \<Rightarrow> Inr content),
      st\<lparr>ops := ops st @ [ReadFile p]\<rparr>)"

text \<open>\<open>writeFileSync\<close> on an existing file replaces its contents (the case \<open>editFile\<close>
  reaches); on a path with no node it creates the file.\<close>

definition writeFileSync :: "fs_state \<Rightarrow> string \<Rightarrow> string \<Rightarrow> error option \<times> fs_state" where
  "writeFileSync st p content =
     (case nodes st p of
        Some (Dir names) \<Rightarrow> (Some (EISDIR p), st\<lparr>ops := ops st @ [WriteFile p content]\<rparr>)
      | _ \<Rightarrow> (None, st\<lparr>nodes := (nodes st)(p \<mapsto> File content),
                        ops := ops st @ [WriteFile p content]\<rparr>))"

definition readdirSync :: "fs_state \<Rightarrow> string \<Rightarrow> (error + string list) \<times> fs_state" where
  "readdirSync st p =
     ((case nodes st p of
         None \<Rightarrow> Inl (ENOENT p)
       | Some (File content) \<Rightarrow> Inl (ENOTDIR p)
       | Some (Dir names) \<Rightarrow> Inr names),
      st\<lparr>ops := ops st @ [ReadDir p]\<rparr>)"

definition readFile :: "env \<Rightarrow> string \<Rightarrow> fs_state \<Rightarrow> (error + string) \<times> fs_state" where
  "readFile e filename st =
     (case testDir e of
        Inl err \<Rightarrow> (Inl err, st)
      | Inr dir \<Rightarrow> readFileSync st (path_resolve e [dir, filename]))"

definition editFile ::
  "env \<Rightarrow> string \<Rightarrow> (string \<Rightarrow> string) \<Rightarrow> bool \<Rightarrow> fs_state \<Rightarrow> error option \<times> fs_state" where
  "editFile e filename replacer runInBuild st =
     (if isBuild e \<and> \<not> runInBuild then (None, st)
      else
        (case testDir e of
           Inl err \<Rightarrow> (Some err, st)
         | Inr dir \<Rightarrow>
             (let filename' = path_resolve e [dir, filename]
              in case readFileSync st filename' of
                   (Inl err, st1) \<Rightarrow> (Some err, st1)
                 | (Inr content, st1) \<Rightarrow>
                     (let modified = replacer content
                      in writeFileSync st1 filename' modified))))"

definition listAssets :: "env \<Rightarrow> string \<Rightarrow> fs_state \<Rightarrow> (error + string list) \<times> fs_state" where
  "listAssets e base st =
     (case testDir e of
        Inl err \<Rightarrow> (Inl err, st)
      | Inr dir \<Rightarrow>
          (let assetsDir = path_join e [dir, ''dist'', base, ''assets'']
           in readdirSync st assetsDir))"

text \<open>
  The argument of \<open>findAssetFile\<close> is a string or a regular expression; a regular
  expression (without the sticky flag) is given by the strings in which it finds a match.
  \<open>file.match(match)\<close> with a string builds \<open>new RegExp(match)\<close>: a pattern made of
  ordinary characters only matches where the pattern occurs; any other pattern is left to
  the engine.
\<close>

datatype matcher = Str string | Re "string \<Rightarrow> bool"

definition syntax_chars :: string where
  "syntax_chars = [CHR ''^'', CHR ''$'', CHR 0x5C, CHR ''.'', CHR ''*'', CHR ''+'', CHR ''?'',
     CHR ''('', CHR '')'', CHR ''['', CHR '']'', CHR ''{'', CHR ''}'', CHR ''|'']"

definition plain_pattern :: "string \<Rightarrow> bool" where
  "plain_pattern p = list_all (\<lambda>c. c \<notin> set syntax_chars) p"

definition RegExp :: "env \<Rightarrow> string \<Rightarrow> error + (string \<Rightarrow> bool)" where
  "RegExp e pattern =
     (if plain_pattern pattern then Inr (\<lambda>s. str_includes s pattern)
      else regexp_engine e pattern)"

text \<open>
  \<open>file.match(match)\<close> uses a regular expression as it is and builds one from a string;
  \<open>str_match\<close> tells whether the result is a match (not \<open>null\<close>), and throws on a bad
  pattern.
\<close>

definition to_regexp :: "env \<Rightarrow> matcher \<Rightarrow> error + (string \<Rightarrow> bool)" where
  "to_regexp e m = (case m of Re r \<Rightarrow> Inr r | Str pattern \<Rightarrow> RegExp e pattern)"

definition str_match :: "env \<Rightarrow> string \<Rightarrow> matcher \<Rightarrow> error + bool" where
  "str_match e file m =
     (case to_regexp e m of Inl err \<Rightarrow> Inl err | Inr r \<Rightarrow> Inr (r file))"

text \<open>\<open>files.find((file) => file.match(match))\<close>.\<close>

fun find_file :: "env \<Rightarrow> matcher \<Rightarrow> string list \<Rightarrow> error + string option" where
  "find_file e m [] = Inr None"
| "find_file e m (file # files) =
     (case str_match e file m of
        Inl err \<Rightarrow> Inl err
      | Inr True \<Rightarrow> Inr (Some file)
      | Inr False \<Rightarrow> find_file e m files)"

definition findAssetFile :: "env \<Rightarrow> matcher \<Rightarrow> string \<Rightarrow> fs_state \<Rightarrow> (error + string) \<times> fs_state" where
  "findAssetFile e m base st =
     (case testDir e of
        Inl err \<Rightarrow> (Inl err, st)
      | Inr dir \<Rightarrow>
          (let assetsDir = path_join e [dir, ''dist'', base, ''assets'']
           in case readdirSync st assetsDir of
                (Inl err, st1) \<Rightarrow> (Inl err, st1)
              | (Inr files, st1) \<Rightarrow>
                  (case find_file e m files of
                     Inl err \<Rightarrow> (Inl err, st1)
                   | Inr None \<Rightarrow> (Inr [], st1)
                   | Inr (Some file) \<Rightarrow>
                       if file = [] then (Inr [], st1)
                       else readFileSync st1 (path_resolve e [assetsDir, file]))))"

text \<open>
  The reading of the specification's sentence on \<open>findAssetFile\<close>: a string argument
  selects the file of exactly that name.
\<close>

definition findAssetFile_by_exact_name ::
  "env \<Rightarrow> string \<Rightarrow> string \<Rightarrow> fs_state \<Rightarrow> (error + string) \<times> fs_state" where
  "findAssetFile_by_exact_name e name base st =
     (case testDir e of
        Inl err \<Rightarrow> (Inl err, st)
      | Inr dir \<Rightarrow>
          (let assetsDir = path_join e [dir, ''dist'', base, ''assets'']
           in case readdirSync st assetsDir of
                (Inl err, st1) \<Rightarrow> (Inl err, st1)
              | (Inr files, st1) \<Rightarrow>
                  (case find (\<lambda>file. file = name) files of
                     None \<Rightarrow> (Inr [], st1)
                   | Some file \<Rightarrow> readFileSync st1 (path_resolve e [assetsDir, file]))))"

section \<open>The test environment\<close>

text \<open>
  What \<open>setup\<close> is given: the temporary directory of the system, the outcome of the base
  environment's \<open>setup\<close>, the path of the test file, and the browser library
  (\<open>chromium.connect\<close>, \<open>browser.newPage\<close>). The environment keeps the browser and the
  page; \<open>connects\<close> lists the endpoints \<open>chromium.connect\<close> was called with.
\<close>

record ('b, 'p) host =
  tmpdir :: string
  super_setup :: "error option"
  context_testPath :: string
  connect :: "string \<Rightarrow> error + 'b"
  newPage :: "'b \<Rightarrow> error + 'p"

record ('b, 'p) environment =
  browser :: "'b option"
  global_page :: "'p option"
  warn_wrapped :: bool
  connects :: "string list"

definition constructed :: "('b, 'p) environment" where
  "constructed = \<lparr>browser = None, global_page = None, warn_wrapped = False, connects = []\<rparr>"

definition DIR :: "env \<Rightarrow> ('b, 'p) host \<Rightarrow> string" where
  "DIR e h = path_join e [tmpdir h, ''jest_playwright_global_setup'']"

definition env_setup ::
  "env \<Rightarrow> ('b, 'p) host \<Rightarrow> fs_state \<Rightarrow> error option \<times> ('b, 'p) environment \<times> fs_state" where
  "env_setup e h st =
     (case super_setup h of
        Some err \<Rightarrow> (Some err, constructed, st)
      | None \<Rightarrow>
          (case readFileSync st (path_join e [DIR e h, ''wsEndpoint'']) of
             (Inl err, st1) \<Rightarrow> (Some err, constructed, st1)
           | (Inr wsEndpoint, st1) \<Rightarrow>
               if wsEndpoint = [] then (Some (Error ''wsEndpoint not found''), constructed, st1)
               else if \<not> str_includes (context_testPath h) ''playground''
               then (None, constructed, st1)
               else
                 (case connect h wsEndpoint of
                    Inl err \<Rightarrow> (Some err, constructed\<lparr>connects := [wsEndpoint]\<rparr>, st1)
                  | Inr b \<Rightarrow>
                      (case newPage h b of
                         Inl err \<Rightarrow>
                           (Some err,
                            constructed\<lparr>browser := Some b, connects := [wsEndpoint]\<rparr>, st1)
                       | Inr pg \<Rightarrow>
                           (None,
                            \<lparr>browser = Some b, global_page = Some pg, warn_wrapped = True,
                             connects = [wsEndpoint]\<rparr>,
                            st1)))))"

section \<open>Example inputs\<close>

text \<open>POSIX \<open>path.resolve\<close> and \<open>path.join\<close> on absolute paths, for the examples.\<close>

fun split_slash :: "string \<Rightarrow> string list" where
  "split_slash [] = [[]]"
| "split_slash (c # cs) =
     (if c = CHR ''/'' then [] # split_slash cs
      else (case split_slash cs of seg # segs \<Rightarrow> (c # seg) # segs | [] \<Rightarrow> [[c]]))"

fun normalize_segs :: "string list \<Rightarrow> string list \<Rightarrow> string list" where
  "normalize_segs acc [] = rev acc"
| "normalize_segs acc (s # ss) =
     (if s = [] \<or> s = ''.'' then normalize_segs acc ss
      else if s = ''..'' then normalize_segs (tl acc) ss
      else normalize_segs (s # acc) ss)"

definition from_last_absolute :: "string list \<Rightarrow> string list" where
  "from_last_absolute segs =
     fold (\<lambda>s acc. if s \<noteq> [] \<and> hd s = CHR ''/'' then [s] else acc @ [s]) segs []"

definition posix_resolve :: "string list \<Rightarrow> string" where
  "posix_resolve segs =
     concat (map (\<lambda>s. CHR ''/'' # s)
       (normalize_segs [] (concat (map split_slash (from_last_absolute segs)))))"

definition posix_join :: "string list \<Rightarrow> string" where
  "posix_join segs =
     concat (map (\<lambda>s. CHR ''/'' # s) (normalize_segs [] (concat (map split_slash segs))))"

definition build_env :: env where
  "build_env = \<lparr>VITE_TEST_BUILD = Some ''1'', CI = None,
     testPath = ''/repo/playground/css/__tests__/css.spec.ts'',
     dirname = ''/repo/playground'',
     path_resolve = posix_resolve, path_join = posix_join,
     regexp_engine = (\<lambda>p. Inl (SyntaxError p))\<rparr>"

definition serve_env :: env where
  "serve_env = build_env\<lparr>VITE_TEST_BUILD := None\<rparr>"

definition ci_env :: env where
  "ci_env = serve_env\<lparr>CI := Some ''true''\<rparr>"

definition css_colors :: color_table where
  "css_colors =
     [(''aqua'', ''#00ffff''), (''black'', ''#000000''), (''cyan'', ''#00ffff''),
      (''red'', ''#ff0000''), (''white'', ''#ffffff'')]"

definition example_page :: "string page" where
  "example_page =
     \<lparr>query = (\<lambda>sel. if sel = ''.red'' then Some ''red-el''
                     else if sel = ''.odd'' then Some ''odd-el''
                     else if sel = ''.clear'' then Some ''clear-el''
                     else None),
      computed_color = (\<lambda>h. if h = ''red-el'' then ''rgb(255, 0, 0)''
                     else if h = ''odd-el'' then ''rgb(1, 2, 3)''
                     else if h = ''clear-el'' then ''rgba(0, 0, 0, 0)''
                     else ''transparent'')\<rparr>"

definition example_fs :: fs_state where
  "example_fs =
     \<lparr>nodes =
        [''/repo/playground-temp/css/index.css'' \<mapsto> File ''body { color: red }'',
         ''/repo/playground-temp/css/dist/assets'' \<mapsto> Dir [''index.3f2a.css'', ''index.9c1b.js''],
         ''/repo/playground-temp/css/dist/assets/index.3f2a.css'' \<mapsto> File ''body{color:red}'',
         ''/repo/playground-temp/css/dist/assets/index.9c1b.js'' \<mapsto> File ''console.log(1)''],
      ops = []\<rparr>"

definition empty_endpoint_fs :: fs_state where
  "empty_endpoint_fs =
     \<lparr>nodes = [''/tmp/jest_playwright_global_setup/wsEndpoint'' \<mapsto> File []], ops = []\<rparr>"

definition example_host :: "(string, string) host" where
  "example_host =
     \<lparr>tmpdir = ''/tmp'', super_setup = None,
      context_testPath = ''/repo/playground/css/__tests__/css.spec.ts'',
      connect = (\<lambda>ws. Inr (''browser at '' @ ws)),
      newPage = (\<lambda>b. Inr ''page'')\<rparr>"

definition upper_case_red :: "string \<Rightarrow> string" where
  "upper_case_red content = ''body { color: RED }''"

definition js_suffix :: "string \<Rightarrow> bool" where
  "js_suffix file = suffix ''.js'' file"

definition stale_getter :: getter where
  "stale_getter = (\<lambda>k. Inr (Some ''old''))"

definition fresh_getter :: getter where
  "fresh_getter = (\<lambda>k. Inr (Some ''<p>new text</p>''))"

section \<open>Properties of untilUpdated\<close>

lemma indexOf_from_range: "indexOf_from i a e = - 1 \<or> int i \<le> indexOf_from i a e"
  by (induction i a e rule: indexOf_from.induct) auto

lemma indexOf_from_absent: "indexOf_from i a e = - 1 \<longleftrightarrow> \<not> sublist e a"
proof (induction i a e rule: indexOf_from.induct)
  case (1 i e)
  then show ?case by auto
next
  case (2 i c cs e)
  then show ?case
    by (cases e) (auto simp: sublist_Cons_right)
qed

lemma indexOf_found_iff: "indexOf a e > - 1 \<longleftrightarrow> sublist e a"
  using indexOf_from_range [of 0 a e] indexOf_from_absent [of 0 a e]
  by (auto simp: indexOf_def)

lemma str_includes_iff: "str_includes a e \<longleftrightarrow> sublist e a"
  by (simp add: str_includes_def indexOf_def indexOf_from_absent)

text \<open>
  The loop on a getter whose remaining results never contain the expected string: it runs
  to the last try, sleeping after every try but the last, and the assertion of the last
  try fails.
\<close>

lemma loop_never_matching:
  assumes "tries < mx"
    and "\<forall>j < mx - tries. \<exists>v. poll (polls lg + j) = Inr v \<and> \<not> sublist expected (nullish_or_empty v)"
  shows "untilUpdated_loop poll expected mx tries lg =
    (Some (AssertionError (returned (poll (polls lg + (mx - tries - 1)))) expected),
     \<lparr>polls = polls lg + (mx - tries),
      sleeps = sleeps lg @ replicate (mx - tries - 1) 50,
      asserts = asserts lg @ [(returned (poll (polls lg + (mx - tries - 1))), expected)]\<rparr>)"
  using assms
proof (induction poll expected mx tries lg rule: untilUpdated_loop.induct)
  case (1 poll expected mx tries lg)
  from "1.prems"(2) "1.prems"(1) obtain v where v: "poll (polls lg) = Inr v"
    and nv: "\<not> sublist expected (nullish_or_empty v)"
    by (metis add.right_neutral zero_less_diff)
  show ?case
  proof (cases "tries = mx - 1")
    case True
    then have "mx - tries - 1 = 0" by simp
    then show ?thesis
      using True v nv "1.prems"(1)
      by (subst untilUpdated_loop.simps)
         (simp add: Let_def toMatch_def str_includes_iff returned_def)
  next
    case False
    let ?lg = "lg\<lparr>polls := Suc (polls lg), sleeps := sleeps lg @ [50]\<rparr>"
    have lt: "Suc tries < mx" using False "1.prems"(1) by simp
    have rest: "\<forall>j < mx - Suc tries. \<exists>v. poll (polls ?lg + j) = Inr v
                  \<and> \<not> sublist expected (nullish_or_empty v)"
    proof (intro allI impI)
      fix j assume "j < mx - Suc tries"
      then have "Suc j < mx - tries" by simp
      with "1.prems"(2) show "\<exists>v. poll (polls ?lg + j) = Inr v
                  \<and> \<not> sublist expected (nullish_or_empty v)" by force
    qed
    have nidx: "\<not> indexOf (nullish_or_empty v) expected > - 1"
      using nv by (simp add: indexOf_found_iff)
    have ih: "untilUpdated_loop poll expected mx (Suc tries) ?lg =
      (Some (AssertionError (returned (poll (polls ?lg + (mx - Suc tries - 1)))) expected),
       \<lparr>polls = polls ?lg + (mx - Suc tries),
        sleeps = sleeps ?lg @ replicate (mx - Suc tries - 1) 50,
        asserts = asserts ?lg @ [(returned (poll (polls ?lg + (mx - Suc tries - 1))), expected)]\<rparr>)"
      using "1.IH" [OF "1.prems"(1) v refl refl _ lt] nidx False rest by simp
    have idx: "polls ?lg + (mx - Suc tries - 1) = polls lg + (mx - tries - 1)"
      using lt by simp
    have "mx - tries - 1 = Suc (mx - Suc tries - 1)" using lt by simp
    then have rep: "replicate (mx - tries - 1) (50::nat) = 50 # replicate (mx - Suc tries - 1) 50"
      by simp
    have step: "untilUpdated_loop poll expected mx tries lg =
        untilUpdated_loop poll expected mx (Suc tries) ?lg"
      using v nidx False "1.prems"(1)
      by (subst untilUpdated_loop.simps) (simp add: Let_def)
    show ?thesis
      unfolding step ih idx rep using lt by simp
  qed
qed

lemma not_sublist_new_old: "\<not> sublist ''new'' ''old''"
  by (simp add: sublist_Cons_right)

text \<open>
  C1, as amended. Unless the build-mode gate applies (the build flag is set and
  \<open>runInBuild\<close> is false), for every getter whose invocations all return a value that does
  not contain the expected string, \<open>untilUpdated\<close> invokes the getter exactly \<open>maxTries\<close>
  times (50, or 100 when \<open>CI\<close> is set), sleeps 50 ms after every try but the last, and
  ends with the failing assertion of the test framework on the last value.
\<close>

theorem untilUpdated_never_matching:
  assumes "\<not> (isBuild e \<and> \<not> runInBuild)"
    and "\<forall>k < maxTries e. \<exists>v. poll k = Inr v \<and> \<not> sublist expected (nullish_or_empty v)"
  shows "maxTries e = (if truthy (CI e) then 100 else 50) \<and>
    untilUpdated e poll expected runInBuild =
      (Some (AssertionError (returned (poll (maxTries e - 1))) expected),
       \<lparr>polls = maxTries e,
        sleeps = replicate (maxTries e - 1) 50,
        asserts = [(returned (poll (maxTries e - 1)), expected)]\<rparr>)"
proof -
  have pos: "0 < maxTries e" by (simp add: maxTries_def)
  have all: "\<forall>j < maxTries e - 0. \<exists>v. poll (polls no_log + j) = Inr v
      \<and> \<not> sublist expected (nullish_or_empty v)"
    using assms(2) by (simp add: no_log_def)
  have "untilUpdated e poll expected runInBuild =
      untilUpdated_loop poll expected (maxTries e) 0 no_log"
    using assms(1) by (auto simp: untilUpdated_def)
  also have "\<dots> = (Some (AssertionError (returned (poll (maxTries e - 1))) expected),
       \<lparr>polls = maxTries e,
        sleeps = replicate (maxTries e - 1) 50,
        asserts = [(returned (poll (maxTries e - 1)), expected)]\<rparr>)"
    using loop_never_matching [OF pos all] by (simp add: no_log_def)
  finally show ?thesis by (simp add: maxTries_def)
qed

theorem untilUpdated_never_matching_witness:
  "\<not> (isBuild ci_env \<and> \<not> False) \<and>
   (\<forall>k. \<exists>v. stale_getter k = Inr v \<and> \<not> sublist ''new'' (nullish_or_empty v)) \<and>
   maxTries ci_env = 100 \<and>
   untilUpdated ci_env stale_getter ''new'' False =
     (Some (AssertionError ''old'' ''new''),
      \<lparr>polls = 100, sleeps = replicate 99 50, asserts = [(''old'', ''new'')]\<rparr>)"
proof -
  have g: "\<not> (isBuild ci_env \<and> \<not> False)"
    by (simp add: isBuild_def ci_env_def serve_env_def build_env_def truthy_def)
  have a: "\<forall>k. \<exists>v. stale_getter k = Inr v \<and> \<not> sublist ''new'' (nullish_or_empty v)"
    by (simp add: stale_getter_def nullish_or_empty_def not_sublist_new_old)
  then have n: "\<forall>k < maxTries ci_env. \<exists>v. stale_getter k = Inr v
      \<and> \<not> sublist ''new'' (nullish_or_empty v)"
    by simp
  have m: "maxTries ci_env = 100"
    by (simp add: maxTries_def ci_env_def truthy_def)
  show ?thesis
    using g a m untilUpdated_never_matching [OF g n, unfolded m]
    by (simp add: returned_def stale_getter_def nullish_or_empty_def)
qed

text \<open>
  C1 as stated fails under the build-mode gate: the getter below returns \<open>old\<close> at
  every invocation, never a string containing \<open>new\<close>; the budget is 50, and \<open>untilUpdated\<close> returns normally without
  invoking the getter and without an assertion.
\<close>

theorem untilUpdated_build_gate_counterexample:
  "range stale_getter = {Inr (Some ''old'')} \<and> \<not> sublist ''new'' ''old'' \<and>
   maxTries build_env = 50 \<and>
   untilUpdated build_env stale_getter ''new'' False =
     (None, \<lparr>polls = 0, sleeps = [], asserts = []\<rparr>)"
  by (auto simp: stale_getter_def not_sublist_new_old maxTries_def
      untilUpdated_def isBuild_def build_env_def truthy_def no_log_def)

text \<open>An exception of the getter ends \<open>untilUpdated\<close> with that exception, on the try where it
  is thrown; here on the first.\<close>

lemma untilUpdated_getter_throws:
  assumes "\<not> (isBuild e \<and> \<not> runInBuild)" and "poll 0 = Inl err"
  shows "untilUpdated e poll expected runInBuild =
     (Some err, \<lparr>polls = 1, sleeps = [], asserts = []\<rparr>)"
proof -
  have pos: "0 < maxTries e" by (simp add: maxTries_def)
  have "untilUpdated_loop poll expected (maxTries e) 0 no_log =
      (Some err, \<lparr>polls = 1, sleeps = [], asserts = []\<rparr>)"
    using pos assms(2) by (subst untilUpdated_loop.simps) (simp add: no_log_def)
  with assms(1) show ?thesis by (auto simp: untilUpdated_def)
qed

text \<open>
  C2. When the build-mode flag is set and \<open>runInBuild\<close> is false, \<open>untilUpdated\<close> returns
  at once, for every getter and every expected string: the getter is not invoked, nothing
  is slept and no assertion is made.
\<close>

theorem untilUpdated_skipped_in_build:
  assumes "isBuild e" and "\<not> runInBuild"
  shows "untilUpdated e poll expected runInBuild = (None, \<lparr>polls = 0, sleeps = [], asserts = []\<rparr>)"
  using assms by (simp add: untilUpdated_def no_log_def)

theorem untilUpdated_skipped_in_build_witness:
  "isBuild build_env \<and> \<not> False \<and>
   untilUpdated build_env (\<lambda>k. Inr (Some ''old'')) ''new'' False
     = (None, \<lparr>polls = 0, sleeps = [], asserts = []\<rparr>)"
proof -
  have b: "isBuild build_env"
    by (simp add: isBuild_def build_env_def truthy_def)
  have f: "\<not> False" by simp
  show ?thesis
    using b untilUpdated_skipped_in_build [OF b f, of "\<lambda>k. Inr (Some ''old'')" "''new''"]
    by simp
qed

text \<open>
  C3. If the first result of the getter contains the expected string (as a substring; it
  need not be equal), \<open>untilUpdated\<close> returns normally without sleeping: on the first
  try, after one invocation of the getter and one passing assertion (and before any
  try when the build-mode gate applies).
\<close>

theorem untilUpdated_first_result_matches:
  assumes "poll 0 = Inr v" and "sublist expected (nullish_or_empty v)"
  shows "untilUpdated e poll expected runInBuild =
     (None,
      if isBuild e \<and> \<not> runInBuild then \<lparr>polls = 0, sleeps = [], asserts = []\<rparr>
      else \<lparr>polls = 1, sleeps = [], asserts = [(nullish_or_empty v, expected)]\<rparr>)"
proof (cases "isBuild e \<and> \<not> runInBuild")
  case True
  then show ?thesis by (simp add: untilUpdated_def no_log_def)
next
  case False
  have pos: "0 < maxTries e" by (simp add: maxTries_def)
  have idx: "indexOf (nullish_or_empty v) expected > - 1"
    using assms(2) by (simp add: indexOf_found_iff)
  have "untilUpdated_loop poll expected (maxTries e) 0 no_log =
      (None, \<lparr>polls = 1, sleeps = [], asserts = [(nullish_or_empty v, expected)]\<rparr>)"
    using pos assms idx
    by (subst untilUpdated_loop.simps)
       (simp add: Let_def no_log_def toMatch_def str_includes_iff)
  with False show ?thesis by (auto simp: untilUpdated_def)
qed

theorem untilUpdated_first_result_matches_witness:
  "fresh_getter 0 = Inr (Some ''<p>new text</p>'') \<and>
   sublist ''new'' (nullish_or_empty (Some ''<p>new text</p>'')) \<and>
   ''new'' \<noteq> ''<p>new text</p>'' \<and>
   untilUpdated serve_env fresh_getter ''new'' False =
     (None, \<lparr>polls = 1, sleeps = [], asserts = [(''<p>new text</p>'', ''new'')]\<rparr>)"
proof -
  have a: "fresh_getter 0 = Inr (Some ''<p>new text</p>'')"
    by (simp add: fresh_getter_def)
  have b: "sublist ''new'' (nullish_or_empty (Some ''<p>new text</p>''))"
    by (simp add: nullish_or_empty_def sublist_Cons_right)
  have g: "\<not> isBuild serve_env"
    by (simp add: isBuild_def serve_env_def build_env_def truthy_def)
  show ?thesis
    using a b g
      untilUpdated_first_result_matches
        [of fresh_getter "Some ''<p>new text</p>''" "''new''" serve_env False]
    by (simp add: nullish_or_empty_def)
qed

section \<open>Properties of the colour helpers\<close>

lemma strip_prefix_iff: "strip_prefix p s = Some r \<longleftrightarrow> s = p @ r"
  by (induction p s rule: strip_prefix.induct) auto

lemma digit_not_space: "is_digit c \<Longrightarrow> \<not> is_space c"
  by (auto simp: is_digit_def is_space_def)

lemma comma_not_digit: "\<not> is_digit CHR '',''"
  by (simp add: is_digit_def)

lemma paren_not_digit: "\<not> is_digit CHR '')''"
  by (simp add: is_digit_def)

lemma takeWhile_run:
  assumes "list_all P xs" and "\<not> P c"
  shows "takeWhile P (xs @ c # ys) = xs" and "dropWhile P (xs @ c # ys) = c # ys"
  using assms by (induction xs) auto

lemma dropWhile_spaces:
  assumes "list_all is_space w" and "list_all is_digit ds" and "ds \<noteq> []"
  shows "dropWhile is_space (w @ ds @ rest) = ds @ rest"
proof -
  from assms(2,3) obtain d ds' where ds: "ds = d # ds'" and d: "is_digit d"
    by (cases ds) auto
  have "dropWhile is_space (w @ d # (ds' @ rest)) = d # (ds' @ rest)"
    using assms(1) digit_not_space [OF d] by (rule takeWhile_run(2))
  then show ?thesis by (simp add: ds)
qed

lemma match_rgb_at_complete:
  assumes "s = ''rgb('' @ rs @ '','' @ w1 @ gs @ '','' @ w2 @ bs @ '')'' @ post"
    and "rs \<noteq> []" "gs \<noteq> []" "bs \<noteq> []"
    and "list_all is_digit rs" "list_all is_digit gs" "list_all is_digit bs"
    and "list_all is_space w1" "list_all is_space w2"
  shows "match_rgb_at s = Some (rs, gs, bs)"
proof -
  let ?t3 = "bs @ '')'' @ post"
  let ?t2 = "gs @ '','' @ w2 @ ?t3"
  let ?t1 = "rs @ '','' @ w1 @ ?t2"
  have p1: "strip_prefix ''rgb('' s = Some ?t1"
    by (simp only: strip_prefix_iff assms(1))
  have r1: "takeWhile is_digit ?t1 = rs" "dropWhile is_digit ?t1 = '','' @ w1 @ ?t2"
    using takeWhile_run [OF assms(5) comma_not_digit] by simp_all
  have p2: "strip_prefix '','' ('','' @ w1 @ ?t2) = Some (w1 @ ?t2)"
    by (simp only: strip_prefix_iff)
  have w1: "dropWhile is_space (w1 @ ?t2) = ?t2"
    using dropWhile_spaces [OF assms(8) assms(6) assms(3)] by simp
  have r2: "takeWhile is_digit ?t2 = gs" "dropWhile is_digit ?t2 = '','' @ w2 @ ?t3"
    using takeWhile_run [OF assms(6) comma_not_digit] by simp_all
  have p3: "strip_prefix '','' ('','' @ w2 @ ?t3) = Some (w2 @ ?t3)"
    by (simp only: strip_prefix_iff)
  have w2: "dropWhile is_space (w2 @ ?t3) = ?t3"
    using dropWhile_spaces [OF assms(9) assms(7) assms(4)] by simp
  have r3: "takeWhile is_digit ?t3 = bs" "dropWhile is_digit ?t3 = '')'' @ post"
    using takeWhile_run [OF assms(7) paren_not_digit] by simp_all
  have p4: "strip_prefix '')'' ('')'' @ post) = Some post"
    by (simp only: strip_prefix_iff)
  show ?thesis
    unfolding match_rgb_at_def p1 option.case Let_def r1 p2 w1 r2 p3 w2 r3 p4
    using assms(2-4) by simp
qed

lemma list_all_takeWhile: "list_all P (takeWhile P xs)"
  by (induction xs) auto

lemma match_rgb_at_sound:
  assumes "match_rgb_at s = Some (rs, gs, bs)"
  shows "\<exists>w1 w2 post.
     s = ''rgb('' @ rs @ '','' @ w1 @ gs @ '','' @ w2 @ bs @ '')'' @ post \<and>
     rs \<noteq> [] \<and> gs \<noteq> [] \<and> bs \<noteq> [] \<and>
     list_all is_digit rs \<and> list_all is_digit gs \<and> list_all is_digit bs \<and>
     list_all is_space w1 \<and> list_all is_space w2"
proof -
  from assms obtain s1 where p1: "strip_prefix ''rgb('' s = Some s1"
    by (auto simp: match_rgb_at_def split: option.splits)
  define s2 where "s2 = dropWhile is_digit s1"
  have rs: "rs = takeWhile is_digit s1" and rs_ne: "rs \<noteq> []"
    using assms p1 by (auto simp: match_rgb_at_def Let_def split: option.splits if_splits)
  from assms p1 obtain s3 where p2: "strip_prefix '','' s2 = Some s3"
    by (auto simp: match_rgb_at_def Let_def s2_def split: option.splits if_splits)
  define s4 where "s4 = dropWhile is_space s3"
  define s5 where "s5 = dropWhile is_digit s4"
  have gs: "gs = takeWhile is_digit s4" and gs_ne: "gs \<noteq> []"
    using assms p1 p2
    by (auto simp: match_rgb_at_def Let_def s2_def s4_def split: option.splits if_splits)
  from assms p1 p2 obtain s6 where p3: "strip_prefix '','' s5 = Some s6"
    by (auto simp: match_rgb_at_def Let_def s2_def s4_def s5_def split: option.splits if_splits)
  define s7 where "s7 = dropWhile is_space s6"
  define s8 where "s8 = dropWhile is_digit s7"
  have bs: "bs = takeWhile is_digit s7" and bs_ne: "bs \<noteq> []"
    using assms p1 p2 p3
    by (auto simp: match_rgb_at_def Let_def s2_def s4_def s5_def s7_def
        split: option.splits if_splits)
  from assms p1 p2 p3 obtain s9 where p4: "strip_prefix '')'' s8 = Some s9"
    by (auto simp: match_rgb_at_def Let_def s2_def s4_def s5_def s7_def s8_def
        split: option.splits if_splits)
  have e1: "s = ''rgb('' @ s1" using p1 by (simp only: strip_prefix_iff)
  have e2: "s1 = rs @ s2" by (simp add: rs s2_def)
  have e3: "s2 = '','' @ s3" using p2 by (simp only: strip_prefix_iff)
  have e4: "s3 = takeWhile is_space s3 @ s4" by (simp add: s4_def)
  have e5: "s4 = gs @ s5" by (simp add: gs s5_def)
  have e6: "s5 = '','' @ s6" using p3 by (simp only: strip_prefix_iff)
  have e7: "s6 = takeWhile is_space s6 @ s7" by (simp add: s7_def)
  have e8: "s7 = bs @ s8" by (simp add: bs s8_def)
  have e9: "s8 = '')'' @ s9" using p4 by (simp only: strip_prefix_iff)
  have "s = ''rgb('' @ rs @ '','' @ takeWhile is_space s3 @ gs @ '',''
              @ takeWhile is_space s6 @ bs @ '')'' @ s9"
    using e1 e2 e3 e4 e5 e6 e7 e8 e9 by (metis append.assoc)
  then show ?thesis
    using rs_ne gs_ne bs_ne
    by (intro exI [of _ "takeWhile is_space s3"] exI [of _ "takeWhile is_space s6"]
          exI [of _ s9])
       (simp add: rs gs bs list_all_takeWhile)
qed

lemma match_rgb_at_iff: "match_rgb_at s \<noteq> None \<longleftrightarrow> rgb_form_at s"
proof
  assume "match_rgb_at s \<noteq> None"
  then obtain rs gs bs where "match_rgb_at s = Some (rs, gs, bs)" by auto
  from match_rgb_at_sound [OF this] show "rgb_form_at s"
    unfolding rgb_form_at_def by blast
next
  assume "rgb_form_at s"
  then obtain rs w1 gs w2 bs post where
    "s = ''rgb('' @ rs @ '','' @ w1 @ gs @ '','' @ w2 @ bs @ '')'' @ post"
    "rs \<noteq> []" "gs \<noteq> []" "bs \<noteq> []"
    "list_all is_digit rs" "list_all is_digit gs" "list_all is_digit bs"
    "list_all is_space w1" "list_all is_space w2"
    unfolding rgb_form_at_def by blast
  from match_rgb_at_complete [OF this] show "match_rgb_at s \<noteq> None" by simp
qed

lemma rgb_form_Nil: "\<not> rgb_form []"
  by (simp add: rgb_form_def rgb_form_at_def)

lemma rgb_form_Cons: "rgb_form (c # cs) \<longleftrightarrow> rgb_form_at (c # cs) \<or> rgb_form cs"
proof
  assume "rgb_form (c # cs)"
  then obtain pre suf where ps: "c # cs = pre @ suf" and f: "rgb_form_at suf"
    unfolding rgb_form_def by blast
  show "rgb_form_at (c # cs) \<or> rgb_form cs"
  proof (cases pre)
    case Nil
    with ps f show ?thesis by simp
  next
    case (Cons a pre')
    with ps have "cs = pre' @ suf" by simp
    with f show ?thesis unfolding rgb_form_def by blast
  qed
next
  assume "rgb_form_at (c # cs) \<or> rgb_form cs"
  then show "rgb_form (c # cs)"
  proof
    assume "rgb_form_at (c # cs)"
    then show ?thesis unfolding rgb_form_def by (metis append_Nil)
  next
    assume "rgb_form cs"
    then obtain pre suf where "cs = pre @ suf" "rgb_form_at suf"
      unfolding rgb_form_def by blast
    then have "c # cs = (c # pre) @ suf" by simp
    with \<open>rgb_form_at suf\<close> show ?thesis unfolding rgb_form_def by blast
  qed
qed

lemma search_rgb_None_iff: "search_rgb s = None \<longleftrightarrow> \<not> rgb_form s"
proof (induction s)
  case Nil
  have "match_rgb_at [] = None" by (simp add: match_rgb_at_def)
  then show ?case by (simp add: rgb_form_Nil)
next
  case (Cons c cs)
  show ?case
  proof (cases "match_rgb_at (c # cs)")
    case None
    then have "\<not> rgb_form_at (c # cs)" using match_rgb_at_iff [of "c # cs"] by simp
    with None Cons show ?thesis by (simp add: rgb_form_Cons)
  next
    case (Some m)
    then have "rgb_form_at (c # cs)" using match_rgb_at_iff [of "c # cs"] by simp
    with Some show ?thesis by (simp add: rgb_form_Cons)
  qed
qed

text \<open>
  A string of the literal form contains the form, so the strings without an occurrence
  are among those that are not of the literal form.
\<close>

lemma space_is_space: "list_all is_space '' ''"
  by (simp add: is_space_def)

lemma literal_rgb_is_rgb_form: "literal_rgb s \<Longrightarrow> rgb_form s"
proof -
  assume "literal_rgb s"
  then obtain rs gs bs where
    s: "s = ''rgb('' @ rs @ '', '' @ gs @ '', '' @ bs @ '')''"
    and ne: "rs \<noteq> []" "gs \<noteq> []" "bs \<noteq> []"
    and dg: "list_all is_digit rs" "list_all is_digit gs" "list_all is_digit bs"
    unfolding literal_rgb_def by blast
  have "s = ''rgb('' @ rs @ '','' @ '' '' @ gs @ '','' @ '' '' @ bs @ '')'' @ []"
    using s by simp
  with ne dg space_is_space have "rgb_form_at s"
    unfolding rgb_form_at_def by blast
  then show "rgb_form s"
    unfolding rgb_form_def by (metis append_Nil)
qed




lemma search_rgb_transparent: "search_rgb ''transparent'' = None"
  by code_simp

lemma search_rgb_rgba: "search_rgb ''rgba(0, 0, 0, 0)'' = None"
  by code_simp



lemma fold_invert:
  "fold (\<lambda>(name, hex) m. m(hex \<mapsto> name)) entries m0 =
     m0 ++ map_of (rev (map (\<lambda>(name, hex). (hex, name)) entries))"
  by (induction entries arbitrary: m0) (auto simp: map_add_upd)

lemma hexToNameMap_eq:
  assumes "distinct (map fst colors)"
  shows "hexToNameMap colors = map_of (rev (map (\<lambda>(name, hex). (hex, name)) colors))"
proof -
  have get: "\<And>name hex. (name, hex) \<in> set colors \<Longrightarrow> object_get colors name = hex"
    using assms by (simp add: object_get_def)
  have "fold (\<lambda>color m. m(object_get colors color \<mapsto> color)) (map fst entries) m0 =
        fold (\<lambda>(name, hex) m. m(hex \<mapsto> name)) entries m0"
    if "set entries \<subseteq> set colors" for entries and m0 :: "string \<rightharpoonup> string"
    using that
  proof (induction entries arbitrary: m0)
    case Nil
    then show ?case by simp
  next
    case (Cons x entries)
    obtain name hex where x: "x = (name, hex)" by (cases x)
    with Cons.prems have "object_get colors name = hex" by (auto intro: get)
    with Cons x show ?case by simp
  qed
  from this [of colors Map.empty] show ?thesis
    by (simp add: hexToNameMap_def object_keys_def fold_invert)
qed

lemma hexToNameMap_dom:
  assumes "distinct (map fst colors)"
  shows "dom (hexToNameMap colors) = snd ` set colors"
  by (force simp: hexToNameMap_eq [OF assms] dom_map_of_conv_image_fst)

lemma hexToNameMap_entry:
  assumes "distinct (map fst colors)" and "hexToNameMap colors hex = Some name"
  shows "map_of colors name = Some hex"
proof -
  from assms have "(hex, name) \<in> set (rev (map (\<lambda>(name, hex). (hex, name)) colors))"
    by (auto simp: hexToNameMap_eq dest: map_of_SomeD)
  then have "(name, hex) \<in> set colors" by auto
  with assms(1) show ?thesis by simp
qed

text \<open>On a string that starts with the form, the result is made of the three numerals.\<close>

lemma rgbToHex_of_form:
  assumes "rs \<noteq> []" "gs \<noteq> []" "bs \<noteq> []"
    and "list_all is_digit rs" "list_all is_digit gs" "list_all is_digit bs"
    and "list_all is_space w1" "list_all is_space w2"
  shows "rgbToHex (''rgb('' @ rs @ '','' @ w1 @ gs @ '','' @ w2 @ bs @ '')'' @ post) =
     ''#'' @ componentToHex (parseInt10 rs) @ componentToHex (parseInt10 gs)
          @ componentToHex (parseInt10 bs)"
proof -
  let ?s = "''rgb('' @ rs @ '','' @ w1 @ gs @ '','' @ w2 @ bs @ '')'' @ post"
  have m: "match_rgb_at ?s = Some (rs, gs, bs)"
    using match_rgb_at_complete [OF refl assms] .
  have "?s = CHR ''r'' # (''gb('' @ rs @ '','' @ w1 @ gs @ '','' @ w2 @ bs @ '')'' @ post)"
    by simp
  then have "search_rgb ?s = Some (rs, gs, bs)"
    using m by (metis option.simps(5) search_rgb.simps(2))
  then show ?thesis by (simp only: rgbToHex_def option.case prod.case)
qed

text \<open>Every result starts with \<open>#\<close>, so a look-up in the inverted table never meets a
  property the object inherits.\<close>

lemma rgbToHex_starts_with_hash: "\<exists>t. rgbToHex s = CHR ''#'' # t"
  by (simp add: rgbToHex_def split: option.splits prod.splits)

text \<open>
  C5. Let \<open>hex\<close> be the hex form of the colour the browser computed for the element. The
  inverted table holds exactly the hex values of the colour table. When \<open>hex\<close> is in the
  inverted table, \<open>getColor\<close> returns the name stored there, a name of the colour table
  whose hex value is \<open>hex\<close>, and not the hex string; when \<open>hex\<close> is not in the inverted
  table, \<open>getColor\<close> returns the computed value unchanged.
\<close>

theorem getColor_name_or_raw:
  assumes "distinct (map fst colors)"
    and "toEl pg el = Some h"
    and "rgbToHex (computed_color pg h) = hex"
  shows "dom (hexToNameMap colors) = snd ` set colors \<and>
    (hex \<in> dom (hexToNameMap colors) \<longrightarrow>
       (\<exists>name. hexToNameMap colors hex = Some name \<and> map_of colors name = Some hex \<and>
          getColor colors pg el = Inr name)) \<and>
    (hex \<notin> dom (hexToNameMap colors) \<longrightarrow> getColor colors pg el = Inr (computed_color pg h))"
proof (intro conjI impI)
  show "dom (hexToNameMap colors) = snd ` set colors"
    by (rule hexToNameMap_dom [OF assms(1)])
next
  assume "hex \<in> dom (hexToNameMap colors)"
  then obtain name where n: "hexToNameMap colors hex = Some name" by auto
  have "getColor colors pg el = Inr name"
    using assms(2,3) n by (simp add: getColor_def Let_def)
  with n hexToNameMap_entry [OF assms(1) n]
  show "\<exists>name. hexToNameMap colors hex = Some name \<and> map_of colors name = Some hex \<and>
          getColor colors pg el = Inr name" by blast
next
  assume "hex \<notin> dom (hexToNameMap colors)"
  then have "hexToNameMap colors hex = None" by auto
  then show "getColor colors pg el = Inr (computed_color pg h)"
    using assms(2,3) by (simp add: getColor_def Let_def)
qed

lemma css_colors_distinct: "distinct (map fst css_colors)"
  by (simp add: css_colors_def)

lemma css_colors_inverse:
  "hexToNameMap css_colors =
     [''#00ffff'' \<mapsto> ''aqua'', ''#000000'' \<mapsto> ''black'', ''#00ffff'' \<mapsto> ''cyan'',
      ''#ff0000'' \<mapsto> ''red'', ''#ffffff'' \<mapsto> ''white'']"
  by (simp add: hexToNameMap_def object_keys_def object_get_def css_colors_def)

theorem getColor_name_or_raw_witness:
  "distinct (map fst css_colors) \<and>
   toEl example_page (Selector ''.red'') = Some ''red-el'' \<and>
   rgbToHex (computed_color example_page ''red-el'') = ''#ff0000'' \<and>
   getColor css_colors example_page (Selector ''.red'') = Inr ''red'' \<and>
   toEl example_page (Selector ''.odd'') = Some ''odd-el'' \<and>
   rgbToHex (computed_color example_page ''odd-el'') = ''#010203'' \<and>
   getColor css_colors example_page (Selector ''.odd'') = Inr ''rgb(1, 2, 3)''"
proof -
  have r: "toEl example_page (Selector ''.red'') = Some ''red-el''"
    by (simp add: toEl_def example_page_def)
  have "rgbToHex ''rgb(255, 0, 0)'' = ''#ff0000''" by code_simp
  then have rh: "rgbToHex (computed_color example_page ''red-el'') = ''#ff0000''"
    by (simp add: example_page_def)
  have rin: "''#ff0000'' \<in> dom (hexToNameMap css_colors)"
    by (simp add: css_colors_inverse)
  have o: "toEl example_page (Selector ''.odd'') = Some ''odd-el''"
    by (simp add: toEl_def example_page_def)
  have "rgbToHex ''rgb(1, 2, 3)'' = ''#010203''" by code_simp
  then have oh: "rgbToHex (computed_color example_page ''odd-el'') = ''#010203''"
    by (simp add: example_page_def)
  have oout: "''#010203'' \<notin> dom (hexToNameMap css_colors)"
    by (simp add: css_colors_inverse)
  have red: "getColor css_colors example_page (Selector ''.red'') = Inr ''red''"
    using getColor_name_or_raw [OF css_colors_distinct r rh] rin
    by (auto simp: css_colors_inverse)
  have odd: "getColor css_colors example_page (Selector ''.odd'') = Inr ''rgb(1, 2, 3)''"
    using getColor_name_or_raw [OF css_colors_distinct o oh] oout
    by (simp add: example_page_def)
  show ?thesis using css_colors_distinct r rh red o oh odd by simp
qed

text \<open>
  C6. For a computed colour in which the form \<open>rgb(R, G, B)\<close> does not occur (such as
  \<open>rgba(0, 0, 0, 0)\<close> or \<open>transparent\<close>), \<open>getColor\<close> returns \<open>black\<close>, the name the
  inverted colour table gives for the fallback hex \<open>#000000\<close>, and not the computed value.
\<close>

theorem getColor_unparsed_is_black:
  assumes "toEl pg el = Some h"
    and "\<not> rgb_form (computed_color pg h)"
    and "hexToNameMap colors ''#000000'' = Some ''black''"
  shows "getColor colors pg el = Inr ''black''"
proof -
  from assms(2) have "search_rgb (computed_color pg h) = None"
    by (simp add: search_rgb_None_iff)
  then have "rgbToHex (computed_color pg h) = ''#000000''"
    by (simp add: rgbToHex_def)
  with assms(1,3) show ?thesis by (simp add: getColor_def Let_def)
qed

theorem getColor_unparsed_is_black_witness:
  "toEl example_page (Selector ''.clear'') = Some ''clear-el'' \<and>
   computed_color example_page ''clear-el'' = ''rgba(0, 0, 0, 0)'' \<and>
   \<not> rgb_form ''rgba(0, 0, 0, 0)'' \<and>
   hexToNameMap css_colors ''#000000'' = Some ''black'' \<and>
   getColor css_colors example_page (Selector ''.clear'') = Inr ''black'' \<and>
   computed_color example_page ''other'' = ''transparent'' \<and>
   \<not> rgb_form ''transparent'' \<and>
   getColor css_colors example_page (Handle ''other'') = Inr ''black''"
proof -
  have c: "toEl example_page (Selector ''.clear'') = Some ''clear-el''"
    by (simp add: toEl_def example_page_def)
  have cc: "computed_color example_page ''clear-el'' = ''rgba(0, 0, 0, 0)''"
    by (simp add: example_page_def)
  have nf: "\<not> rgb_form ''rgba(0, 0, 0, 0)''"
    using search_rgb_rgba search_rgb_None_iff by blast
  have b: "hexToNameMap css_colors ''#000000'' = Some ''black''"
    by (simp add: css_colors_inverse)
  have t: "toEl example_page (Handle ''other'') = Some ''other''"
    by (simp add: toEl_def)
  have tc: "computed_color example_page ''other'' = ''transparent''"
    by (simp add: example_page_def)
  have nt: "\<not> rgb_form ''transparent''"
    using search_rgb_transparent search_rgb_None_iff by blast
  have g1: "getColor css_colors example_page (Selector ''.clear'') = Inr ''black''"
    using getColor_unparsed_is_black [OF c _ b] nf cc by simp
  have g2: "getColor css_colors example_page (Handle ''other'') = Inr ''black''"
    using getColor_unparsed_is_black [OF t _ b] nt tc by simp
  show ?thesis using c cc nf b g1 tc nt g2 by simp
qed

section \<open>Properties of the file helpers\<close>

lemma isBuild_build_env: "isBuild build_env"
  by (simp add: isBuild_def build_env_def truthy_def)

lemma not_isBuild_serve_env: "\<not> isBuild serve_env"
  by (simp add: isBuild_def serve_env_def build_env_def truthy_def)

lemma testDir_serve_env: "testDir serve_env = Inr ''/repo/playground-temp/css''"
  by code_simp

lemma testDir_build_env: "testDir build_env = Inr ''/repo/playground-temp/css''"
  by code_simp

text \<open>
  C7. When the build-mode flag is set and \<open>runInBuild\<close> is false, \<open>editFile\<close> returns
  without a call to the file system: for every file name and every replacer the state of
  the file system, the contents of the target file among it, is unchanged and no read or
  write is recorded.
\<close>

theorem editFile_noop_in_build:
  assumes "isBuild e" and "\<not> runInBuild"
  shows "editFile e filename replacer runInBuild st = (None, st)"
  using assms by (simp add: editFile_def)

theorem editFile_noop_in_build_witness:
  "isBuild build_env \<and> \<not> False \<and>
   editFile build_env ''index.css'' upper_case_red False example_fs = (None, example_fs) \<and>
   nodes example_fs ''/repo/playground-temp/css/index.css'' = Some (File ''body { color: red }'')"
proof -
  have f: "\<not> False" by simp
  have n: "nodes example_fs ''/repo/playground-temp/css/index.css''
             = Some (File ''body { color: red }'')"
    by (simp add: example_fs_def)
  show ?thesis
    using isBuild_build_env n
      editFile_noop_in_build [OF isBuild_build_env f, of "''index.css''" upper_case_red example_fs]
    by simp
qed

text \<open>In serve mode the same call reads the file and writes the replaced contents.\<close>

lemma editFile_serve_example:
  "editFile serve_env ''index.css'' upper_case_red False example_fs =
     (None, example_fs\<lparr>nodes := (nodes example_fs)
               (''/repo/playground-temp/css/index.css'' \<mapsto> File ''body { color: RED }''),
             ops := [ReadFile ''/repo/playground-temp/css/index.css'',
                     WriteFile ''/repo/playground-temp/css/index.css'' ''body { color: RED }'']\<rparr>)"
proof -
  have p: "path_resolve serve_env [''/repo/playground-temp/css'', ''index.css'']
      = ''/repo/playground-temp/css/index.css''"
    by code_simp
  show ?thesis
    by (simp add: editFile_def not_isBuild_serve_env testDir_serve_env p Let_def
        readFileSync_def writeFileSync_def example_fs_def upper_case_red_def)
qed

lemma RegExp_plain:
  assumes "plain_pattern p"
  shows "RegExp e p = Inr (\<lambda>file. sublist p file)"
  using assms by (simp add: RegExp_def str_includes_iff)

lemma find_file_eq:
  assumes "to_regexp e m = Inr r"
  shows "find_file e m files = Inr (find r files)"
  using assms by (induction files) (simp_all add: str_match_def)

lemma assetsDir_serve_env:
  "path_join serve_env [''/repo/playground-temp/css'', ''dist'', [], ''assets'']
     = ''/repo/playground-temp/css/dist/assets''"
  by code_simp

lemma asset_paths_serve_env:
  "path_resolve serve_env [''/repo/playground-temp/css/dist/assets'', ''index.3f2a.css'']
     = ''/repo/playground-temp/css/dist/assets/index.3f2a.css''"
  "path_resolve serve_env [''/repo/playground-temp/css/dist/assets'', ''index.9c1b.js'']
     = ''/repo/playground-temp/css/dist/assets/index.9c1b.js''"
  by code_simp+

lemma plain_index: "plain_pattern ''index''"
  by (simp add: plain_pattern_def syntax_chars_def)

lemma assets_of_example_fs:
  "nodes example_fs ''/repo/playground-temp/css/dist/assets''
     = Some (Dir [''index.3f2a.css'', ''index.9c1b.js''])"
  by (simp add: example_fs_def)

lemma plain_9c1b: "plain_pattern ''9c1b''"
  by (simp add: plain_pattern_def syntax_chars_def)

text \<open>
  C8, as amended. Against an assets directory that exists, \<open>listAssets\<close> returns exactly
  the names listed for that directory, and \<open>findAssetFile\<close> returns the contents of the
  first listed name in which the argument finds a match as a regular expression, or the
  empty string when it finds a match in none. A regular expression is used as it is; a
  string is compiled to one, so that a string of ordinary characters matches every name
  that contains it (and not only the name equal to it).
\<close>

theorem assets_listed_and_first_match_read:
  assumes "testDir e = Inr dir"
    and "assetsDir = path_join e [dir, ''dist'', base, ''assets'']"
    and "nodes st assetsDir = Some (Dir files)"
    and "to_regexp e m = Inr r"
  shows "fst (listAssets e base st) = Inr files \<and>
    fst (findAssetFile e m base st) =
      (case find r files of
         None \<Rightarrow> Inr []
       | Some file \<Rightarrow>
           if file = [] then Inr [] else fst (readFileSync st (path_resolve e [assetsDir, file]))) \<and>
    (\<forall>r'. to_regexp e (Re r') = Inr r') \<and>
    (\<forall>p. plain_pattern p \<longrightarrow> to_regexp e (Str p) = Inr (\<lambda>file. sublist p file))"
proof (intro conjI allI impI)
  show "fst (listAssets e base st) = Inr files"
    using assms(1-3) by (simp add: listAssets_def Let_def readdirSync_def)
next
  have rd: "readdirSync st assetsDir = (Inr files, st\<lparr>ops := ops st @ [ReadDir assetsDir]\<rparr>)"
    using assms(3) by (simp add: readdirSync_def)
  have same: "fst (readFileSync (st\<lparr>ops := ops st @ [ReadDir assetsDir]\<rparr>) p)
      = fst (readFileSync st p)" for p
    by (simp add: readFileSync_def)
  show "fst (findAssetFile e m base st) =
      (case find r files of
         None \<Rightarrow> Inr []
       | Some file \<Rightarrow>
           if file = [] then Inr [] else fst (readFileSync st (path_resolve e [assetsDir, file])))"
    using assms(1) rd same
    by (simp add: findAssetFile_def Let_def assms(2) [symmetric] find_file_eq [OF assms(4)]
        split: option.splits)
next
  fix r' show "to_regexp e (Re r') = Inr r'" by (simp add: to_regexp_def)
next
  fix p assume "plain_pattern p"
  then show "to_regexp e (Str p) = Inr (\<lambda>file. sublist p file)"
    by (simp add: to_regexp_def RegExp_plain)
qed

theorem assets_listed_and_first_match_read_witness:
  "testDir serve_env = Inr ''/repo/playground-temp/css'' \<and>
   ''/repo/playground-temp/css/dist/assets''
     = path_join serve_env [''/repo/playground-temp/css'', ''dist'', [], ''assets''] \<and>
   nodes example_fs ''/repo/playground-temp/css/dist/assets''
     = Some (Dir [''index.3f2a.css'', ''index.9c1b.js'']) \<and>
   to_regexp serve_env (Re js_suffix) = Inr js_suffix \<and>
   to_regexp serve_env (Str ''9c1b'') = Inr (sublist ''9c1b'') \<and>
   fst (listAssets serve_env [] example_fs) = Inr [''index.3f2a.css'', ''index.9c1b.js''] \<and>
   fst (findAssetFile serve_env (Re js_suffix) [] example_fs) = Inr ''console.log(1)'' \<and>
   fst (findAssetFile serve_env (Str ''9c1b'') [] example_fs) = Inr ''console.log(1)''"
proof -
  have d: "testDir serve_env = Inr ''/repo/playground-temp/css''" by (rule testDir_serve_env)
  have a: "''/repo/playground-temp/css/dist/assets''
     = path_join serve_env [''/repo/playground-temp/css'', ''dist'', [], ''assets'']"
    by (rule assetsDir_serve_env [symmetric])
  have m: "to_regexp serve_env (Re js_suffix) = Inr js_suffix" by (simp add: to_regexp_def)
  have n: "to_regexp serve_env (Str ''9c1b'') = Inr (sublist ''9c1b'')"
    by (simp add: to_regexp_def RegExp_plain plain_9c1b)
  have f: "find js_suffix [''index.3f2a.css'', ''index.9c1b.js''] = Some ''index.9c1b.js''"
    by (simp add: js_suffix_def suffix_def)
  have g: "find (sublist ''9c1b'') [''index.3f2a.css'', ''index.9c1b.js''] = Some ''index.9c1b.js''"
    by (simp add: sublist_Cons_right)
  have c: "fst (readFileSync example_fs ''/repo/playground-temp/css/dist/assets/index.9c1b.js'')
      = Inr ''console.log(1)''"
    by (simp add: readFileSync_def example_fs_def)
  note by_regexp = assets_listed_and_first_match_read [OF d a assets_of_example_fs m]
  note by_string = assets_listed_and_first_match_read [OF d a assets_of_example_fs n]
  from by_regexp have l: "fst (listAssets serve_env [] example_fs)
      = Inr [''index.3f2a.css'', ''index.9c1b.js'']" by (rule conjunct1)
  from by_regexp have "fst (findAssetFile serve_env (Re js_suffix) [] example_fs) =
      (case find js_suffix [''index.3f2a.css'', ''index.9c1b.js''] of
         None \<Rightarrow> Inr []
       | Some file \<Rightarrow>
           if file = [] then Inr []
           else fst (readFileSync example_fs
                  (path_resolve serve_env [''/repo/playground-temp/css/dist/assets'', file])))"
    by (rule conjunct2 [THEN conjunct1])
  then have r: "fst (findAssetFile serve_env (Re js_suffix) [] example_fs) = Inr ''console.log(1)''"
    unfolding f by (simp add: asset_paths_serve_env c)
  from by_string have "fst (findAssetFile serve_env (Str ''9c1b'') [] example_fs) =
      (case find (sublist ''9c1b'') [''index.3f2a.css'', ''index.9c1b.js''] of
         None \<Rightarrow> Inr []
       | Some file \<Rightarrow>
           if file = [] then Inr []
           else fst (readFileSync example_fs
                  (path_resolve serve_env [''/repo/playground-temp/css/dist/assets'', file])))"
    by (rule conjunct2 [THEN conjunct1])
  then have t: "fst (findAssetFile serve_env (Str ''9c1b'') [] example_fs) = Inr ''console.log(1)''"
    unfolding g by (simp add: asset_paths_serve_env c)
  show ?thesis
    using d a assets_of_example_fs m n l r t by blast
qed

text \<open>
  C8 as stated fails for a string argument: the assets directory holds no file named
  \<open>index\<close>, so selection by exact name gives the empty string, while \<open>findAssetFile\<close>
  returns the contents of \<open>index.3f2a.css\<close>, the first name that contains \<open>index\<close>.
\<close>

theorem findAssetFile_not_by_exact_name_counterexample:
  "fst (listAssets serve_env [] example_fs) = Inr [''index.3f2a.css'', ''index.9c1b.js''] \<and>
   fst (findAssetFile serve_env (Str ''index'') [] example_fs) = Inr ''body{color:red}'' \<and>
   fst (findAssetFile_by_exact_name serve_env ''index'' [] example_fs) = Inr []"
proof -
  have l: "fst (listAssets serve_env [] example_fs) = Inr [''index.3f2a.css'', ''index.9c1b.js'']"
    by (simp add: listAssets_def testDir_serve_env assetsDir_serve_env Let_def
        readdirSync_def assets_of_example_fs)
  have m: "to_regexp serve_env (Str ''index'') = Inr (\<lambda>file. sublist ''index'' file)"
    by (simp add: to_regexp_def RegExp_plain plain_index)
  have "find (\<lambda>file. sublist ''index'' file) [''index.3f2a.css'', ''index.9c1b.js'']
      = Some ''index.3f2a.css''"
    by (simp add: sublist_Cons_right)
  then have "find_file serve_env (Str ''index'') [''index.3f2a.css'', ''index.9c1b.js'']
      = Inr (Some ''index.3f2a.css'')"
    by (simp only: find_file_eq [OF m])
  then have f: "fst (findAssetFile serve_env (Str ''index'') [] example_fs) = Inr ''body{color:red}''"
    by (simp add: findAssetFile_def testDir_serve_env assetsDir_serve_env Let_def
        readdirSync_def assets_of_example_fs asset_paths_serve_env readFileSync_def example_fs_def)
  have x: "fst (findAssetFile_by_exact_name serve_env ''index'' [] example_fs) = Inr []"
    by (simp add: findAssetFile_by_exact_name_def testDir_serve_env assetsDir_serve_env Let_def
        readdirSync_def assets_of_example_fs)
  show ?thesis using l f x by simp
qed

section \<open>Properties of the port table\<close>

lemma ports_values_distinct: "distinct (map snd ports)"
  by (simp add: ports_def)

text \<open>
  C9. The port numbers of the port table are pairwise distinct: two different suite
  identifiers of the table have different ports.
\<close>

theorem ports_unique:
  assumes "map_of ports a = Some p" and "map_of ports b = Some q" and "a \<noteq> b"
  shows "p \<noteq> q"
proof
  assume "p = q"
  from assms(1) have ia: "(a, p) \<in> set ports" by (rule map_of_SomeD)
  from assms(2) \<open>p = q\<close> have ib: "(b, p) \<in> set ports" by (auto dest: map_of_SomeD)
  have "inj_on snd (set ports)"
    using ports_values_distinct by (simp add: distinct_map)
  from inj_onD [OF this _ ia ib] have "a = b" by simp
  with assms(3) show False by simp
qed

theorem ports_unique_witness:
  "map_of ports ''cli'' = Some 9510 \<and> map_of ports ''css/postcss-caching'' = Some 5005 \<and>
   ''cli'' \<noteq> ''css/postcss-caching'' \<and> (9510::nat) \<noteq> 5005"
proof -
  have a: "map_of ports ''cli'' = Some 9510" by (simp add: ports_def)
  have b: "map_of ports ''css/postcss-caching'' = Some 5005" by (simp add: ports_def)
  have c: "''cli'' \<noteq> ''css/postcss-caching''" by simp
  show ?thesis using a b c ports_unique [OF a b c] by simp
qed

section \<open>Properties of the test environment\<close>

lemma wsEndpoint_path:
  "''/tmp/jest_playwright_global_setup/wsEndpoint''
     = path_join serve_env [DIR serve_env example_host, ''wsEndpoint'']"
  by code_simp

text \<open>
  C10. If the file \<open>wsEndpoint\<close> of the well-known temporary directory is absent or
  empty, the environment's \<open>setup\<close> throws: no call to \<open>chromium.connect\<close> has been made,
  no browser or page is kept, and this holds for every test path, in the playground group
  or not. When the base environment's \<open>setup\<close> succeeded, the exception is the file
  system's for the absent file and \<open>wsEndpoint not found\<close> for the empty one.
\<close>

theorem setup_fails_without_wsEndpoint:
  assumes "p = path_join e [DIR e h, ''wsEndpoint'']"
    and "nodes st p = None \<or> nodes st p = Some (File [])"
  shows "\<exists>err env' st'. env_setup e h st = (Some err, env', st') \<and>
      connects env' = [] \<and> browser env' = None \<and> global_page env' = None \<and>
      (super_setup h = None \<longrightarrow>
         err = (if nodes st p = None then ENOENT p else Error ''wsEndpoint not found''))"
proof (cases "super_setup h")
  case (Some err)
  then show ?thesis by (simp add: env_setup_def constructed_def)
next
  case None
  from assms(2) show ?thesis
  proof
    assume "nodes st p = None"
    then show ?thesis
      using None by (simp add: env_setup_def assms(1) [symmetric] readFileSync_def constructed_def)
  next
    assume "nodes st p = Some (File [])"
    then show ?thesis
      using None by (simp add: env_setup_def assms(1) [symmetric] readFileSync_def constructed_def)
  qed
qed

theorem setup_fails_without_wsEndpoint_witness:
  "''/tmp/jest_playwright_global_setup/wsEndpoint''
     = path_join serve_env [DIR serve_env example_host, ''wsEndpoint''] \<and>
   nodes example_fs ''/tmp/jest_playwright_global_setup/wsEndpoint'' = None \<and>
   nodes empty_endpoint_fs ''/tmp/jest_playwright_global_setup/wsEndpoint'' = Some (File []) \<and>
   str_includes (context_testPath example_host) ''playground'' \<and>
   fst (env_setup serve_env example_host example_fs)
     = Some (ENOENT ''/tmp/jest_playwright_global_setup/wsEndpoint'') \<and>
   fst (env_setup serve_env example_host empty_endpoint_fs)
     = Some (Error ''wsEndpoint not found'')"
proof -
  have a: "nodes example_fs ''/tmp/jest_playwright_global_setup/wsEndpoint'' = None"
    by (simp add: example_fs_def)
  have b: "nodes empty_endpoint_fs ''/tmp/jest_playwright_global_setup/wsEndpoint'' = Some (File [])"
    by (simp add: empty_endpoint_fs_def)
  have s: "super_setup example_host = None" by (simp add: example_host_def)
  have pl: "str_includes (context_testPath example_host) ''playground''"
    by (simp add: str_includes_iff example_host_def sublist_Cons_right)
  have 1: "fst (env_setup serve_env example_host example_fs)
     = Some (ENOENT ''/tmp/jest_playwright_global_setup/wsEndpoint'')"
    using setup_fails_without_wsEndpoint [OF wsEndpoint_path disjI1, OF a] a s by auto
  have 2: "fst (env_setup serve_env example_host empty_endpoint_fs)
     = Some (Error ''wsEndpoint not found'')"
    using setup_fails_without_wsEndpoint [OF wsEndpoint_path disjI2, OF b] b s by auto
  show ?thesis using wsEndpoint_path a b pl 1 2 by blast
qed

end
